theory Spec2Isabelle
  imports Main
begin

section \<open>JavaScript values and inbound frames\<close>

text \<open>
  The provider in \<^verbatim>\<open>frontend/src/context/ws-client-provider.tsx\<close> handles values of type
  \<^verbatim>\<open>unknown\<close> and \<^verbatim>\<open>Record<string, unknown>\<close>. A value is one of the JSON shapes
  below; an object is an association list from property names to values, read with
  \<open>map_of\<close> (the first binding of a key is the property). Numbers are the integers
  (event ids are ordinals); arrays are not part of the model.
\<close>

datatype jsval =
    JUndefined
  | JNull
  | JBool bool
  | JNum int
  | JStr string
  | JObj "(string \<times> jsval) list"

type_synonym frame = "(string \<times> jsval) list"

text \<open>
  \<^verbatim>\<open>key in obj\<close> for an own property of a plain object. (The operator also finds
  inherited properties; none of the keys the provider tests, \<open>id\<close>, \<open>source\<close>, \<open>type\<close>,
  \<open>message\<close>, \<open>timestamp\<close>, \<open>data\<close>, \<open>msg_id\<close>, is inherited by a plain object.)
\<close>

definition has_key :: "string \<Rightarrow> frame \<Rightarrow> bool" where
  "has_key k obj = (map_of obj k \<noteq> None)"

text \<open>\<^verbatim>\<open>obj.key\<close>: the property, \<^verbatim>\<open>undefined\<close> when it is absent.\<close>

definition get_prop :: "frame \<Rightarrow> string \<Rightarrow> jsval" where
  "get_prop obj k = (case map_of obj k of None \<Rightarrow> JUndefined | Some v \<Rightarrow> v)"

text \<open>
  \<^verbatim>\<open>const isObject = (val) => !!val && typeof val === "object"\<close> and
  \<^verbatim>\<open>const isString = (val) => typeof val === "string"\<close>
  (\<^verbatim>\<open>null\<close> has type "object" but is falsy).
\<close>

fun isObject :: "jsval \<Rightarrow> bool" where
  "isObject (JObj kvs) = True"
| "isObject v = False"

fun isString :: "jsval \<Rightarrow> bool" where
  "isString (JStr s) = True"
| "isString v = False"

text \<open>
  Reading a value through a narrowed type: the properties of an object and the characters
  of a string. Both are only applied under the guards \<open>isObject\<close> and \<open>isString\<close>.
\<close>

fun props_of :: "jsval \<Rightarrow> frame" where
  "props_of (JObj kvs) = kvs"
| "props_of v = []"

fun str_of :: "jsval \<Rightarrow> string" where
  "str_of (JStr s) = s"
| "str_of v = []"

subsection \<open>parseInt(value, 10)\<close>

text \<open>
  \<^verbatim>\<open>parseInt(x, 10)\<close> converts its argument to a string, skips leading white space,
  reads an optional sign and then the longest run of decimal digits; the result is
  \<^verbatim>\<open>NaN\<close> exactly when there is no digit at that place. Only that test is used by the
  provider (\<^verbatim>\<open>!Number.isNaN(parseInt(event.id as string, 10))\<close>). Characters are
  bytes here, so the white space skipped is the ASCII part of the language's list (tab,
  line feed, vertical tab, form feed, carriage return, space).
\<close>

definition digit_char :: "nat \<Rightarrow> char" where
  "digit_char d = ''0123456789'' ! d"

fun digits10 :: "nat \<Rightarrow> string" where
  "digits10 n = (if n < 10 then [digit_char n] else digits10 (n div 10) @ [digit_char (n mod 10)])"

declare digits10.simps [simp del]

fun js_toString :: "jsval \<Rightarrow> string" where
  "js_toString JUndefined = ''undefined''"
| "js_toString JNull = ''null''"
| "js_toString (JBool b) = (if b then ''true'' else ''false'')"
| "js_toString (JNum n) = (if n < 0 then CHR ''-'' # digits10 (nat (- n)) else digits10 (nat n))"
| "js_toString (JStr s) = s"
| "js_toString (JObj kvs) = ''[object Object]''"

definition isStrWhiteSpace :: "char \<Rightarrow> bool" where
  "isStrWhiteSpace c = (c \<in> set [CHR 0x09, CHR 0x0A, CHR 0x0B, CHR 0x0C, CHR 0x0D, CHR 0x20])"

definition isDigit10 :: "char \<Rightarrow> bool" where
  "isDigit10 c = (c \<in> set ''0123456789'')"

definition parseInt_isNaN :: "jsval \<Rightarrow> bool" where
  "parseInt_isNaN v =
     (case dropWhile isStrWhiteSpace (js_toString v) of
        [] \<Rightarrow> True
      | c # cs \<Rightarrow>
          if c = CHR ''-'' \<or> c = CHR ''+''
          then (case cs of [] \<Rightarrow> True | d # ds \<Rightarrow> \<not> isDigit10 d)
          else \<not> isDigit10 c)"

section \<open>Type guards on events\<close>

definition isOpenHandsEvent :: "jsval \<Rightarrow> bool" where
  "isOpenHandsEvent event =
     (case event of
        JObj ev \<Rightarrow> has_key ''id'' ev \<and> has_key ''source'' ev \<and> has_key ''message'' ev
                   \<and> has_key ''timestamp'' ev
      | _ \<Rightarrow> False)"

definition isUserMessage :: "frame \<Rightarrow> bool" where
  "isUserMessage event =
     (has_key ''source'' event \<and> has_key ''type'' event
      \<and> get_prop event ''source'' = JStr ''user'' \<and> get_prop event ''type'' = JStr ''message'')"

definition isAssistantMessage :: "frame \<Rightarrow> bool" where
  "isAssistantMessage event =
     (has_key ''source'' event \<and> has_key ''type'' event
      \<and> get_prop event ''source'' = JStr ''agent'' \<and> get_prop event ''type'' = JStr ''message'')"

definition isMessageAction :: "frame \<Rightarrow> bool" where
  "isMessageAction event = (isUserMessage event \<or> isAssistantMessage event)"

section \<open>Classification of error payloads\<close>

text \<open>The argument object of \<^verbatim>\<open>showChatError\<close>.\<close>

record chat_error =
  ce_message :: string
  ce_source :: string
  ce_metadata :: frame
  ce_msgId :: "string option"

text \<open>
  \<^verbatim>\<open>updateStatusWhenErrorMessagePresent(data)\<close>: the call of \<^verbatim>\<open>showChatError\<close> it makes,
  or \<open>None\<close> when it makes none.
\<close>

definition updateStatusWhenErrorMessagePresent :: "jsval \<Rightarrow> chat_error option" where
  "updateStatusWhenErrorMessagePresent data =
     (if isObject data \<and> has_key ''message'' (props_of data)
         \<and> isString (get_prop (props_of data) ''message'')
      then
        let message = str_of (get_prop (props_of data) ''message'') in
        if message = ''websocket error'' \<or> message = ''timeout'' then None
        else
          let inner = get_prop (props_of data) ''data'';
              hasData = (has_key ''data'' (props_of data) \<and> isObject inner);
              msgId = (if hasData \<and> has_key ''msg_id'' (props_of inner)
                          \<and> isString (get_prop (props_of inner) ''msg_id'')
                       then Some (str_of (get_prop (props_of inner) ''msg_id''))
                       else None);
              metadata = (if hasData then props_of inner else [])
          in Some \<lparr> ce_message = message, ce_source = ''websocket'',
                    ce_metadata = metadata, ce_msgId = msgId \<rparr>
      else None)"

section \<open>The provider's state\<close>

datatype WsClientProviderStatus = CONNECTED | DISCONNECTED

datatype ReplayStatus = IN_PROGRESS | COMPLETED

text \<open>
  The handler functions \<^verbatim>\<open>handleConnect\<close>, \<^verbatim>\<open>handleMessage\<close>, \<^verbatim>\<open>handleError\<close> and
  \<^verbatim>\<open>handleDisconnect\<close> are declared in the body of the component, so every render
  creates new function objects. A handler is identified by its name and the number of the
  render that created it.
\<close>

datatype handler =
    HandleConnect nat
  | HandleMessage nat
  | HandleError nat
  | HandleDisconnect nat

text \<open>
  The socket held in \<^verbatim>\<open>sioRef\<close>, as far as the provider reads and writes it: the query
  object of the connection options (\<^verbatim>\<open>sio.io.opts.query\<close>) and the listeners
  registered on it, each an event name with a handler.
\<close>

record socket =
  latest_event_id :: jsval
  conversation_id :: string
  auth :: jsval
  mode :: "string option"
  listeners :: "(string \<times> handler) list"

text \<open>Calls made on the socket object, in the order they are made.\<close>

datatype socket_call =
    SockOn string handler
  | SockOff string handler
  | SockDisconnect
  | SockEmit string frame

text \<open>
  The five pairs of event name and handler that a render \<open>r\<close> passes to \<^verbatim>\<open>sio.on\<close>
  (lines 362-366) and to \<^verbatim>\<open>sio.off\<close> (lines 166-170 and 331-335), in source order.
\<close>

definition render_handlers :: "nat \<Rightarrow> (string \<times> handler) list" where
  "render_handlers r =
     [(''connect'', HandleConnect r), (''oh_event'', HandleMessage r),
      (''connect_error'', HandleError r), (''connect_failed'', HandleError r),
      (''disconnect'', HandleDisconnect r)]"

text \<open>
  \<^verbatim>\<open>sio.off(name, handler)\<close> removes the listener registered under that name with that
  very function object, and nothing when there is none.
\<close>

definition sock_off :: "socket \<Rightarrow> string \<times> handler \<Rightarrow> socket" where
  "sock_off sio l = sio\<lparr>listeners := remove1 l (listeners sio)\<rparr>"

text \<open>The six calls that detach a render's handlers and close the socket.\<close>

definition detach_calls :: "nat \<Rightarrow> socket_call list" where
  "detach_calls r = map (\<lambda>(name, h). SockOff name h) (render_handlers r) @ [SockDisconnect]"

text \<open>Actions dispatched to the store by \<^verbatim>\<open>resetReplay\<close>.\<close>

datatype store_action = ClearMessages | SetCurrentPathViewed string | ClearComputerList

text \<open>
  The React state (\<open>status\<close>, \<open>events\<close>, \<open>replayStatus\<close>), the refs, the route flag, and
  one trace per collaborator the provider calls: \<open>assistantMessages\<close> for
  \<^verbatim>\<open>handleAssistantMessage\<close>, \<open>rateRecords\<close> for the number of
  \<^verbatim>\<open>messageRateHandler.record\<close> calls, \<open>loggedErrors\<close> for \<^verbatim>\<open>EventLogger.error\<close>,
  \<open>chatErrors\<close> for \<^verbatim>\<open>showChatError\<close>, \<open>socketCalls\<close> for the socket,
  \<open>closedSockets\<close> for the sockets the provider has closed and dropped (with the
  listeners they still carry),
  \<open>dispatched\<close> for the store, \<open>errorToasts\<close> for \<^verbatim>\<open>displayErrorToast\<close>.
  \<open>replayTimers\<close> counts the pending \<^verbatim>\<open>setTimeout\<close> callbacks of
  \<^verbatim>\<open>processMessageQueue\<close>, \<open>navigateTimers\<close> those of \<^verbatim>\<open>handleError\<close>.
  Each handler runs to completion before the next one starts, and the state updates it
  queues (\<^verbatim>\<open>setEvents\<close>, \<^verbatim>\<open>setReplayStatus\<close>, \<^verbatim>\<open>setStatus\<close>) take effect in the order
  they are queued; a handler is therefore a function from the state to the state.
\<close>

record ws_client =
  status :: WsClientProviderStatus
  events :: "frame list"
  replayStatus :: ReplayStatus
  lastEventRef :: "frame option"
  messageQueueRef :: "frame list"
  processingQueueRef :: bool
  shouldProcessMessagesRef :: bool
  sioRef :: "socket option"
  isShareRoute :: bool
  assistantMessages :: "frame list"
  rateRecords :: nat
  loggedErrors :: "string list"
  chatErrors :: "chat_error list"
  socketCalls :: "socket_call list"
  closedSockets :: "socket list"
  dispatched :: "store_action list"
  errorToasts :: "string list"
  replayTimers :: nat
  navigateTimers :: nat

text \<open>The values of \<^verbatim>\<open>useState\<close> and \<^verbatim>\<open>useRef\<close> at the first render.\<close>

definition initial_client :: ws_client where
  "initial_client =
     \<lparr> status = DISCONNECTED, events = [], replayStatus = IN_PROGRESS, lastEventRef = None,
       messageQueueRef = [], processingQueueRef = False, shouldProcessMessagesRef = True,
       sioRef = None, isShareRoute = False, assistantMessages = [], rateRecords = 0,
       loggedErrors = [], chatErrors = [], socketCalls = [], closedSockets = [],
       dispatched = [],
       errorToasts = [], replayTimers = 0, navigateTimers = 0 \<rparr>"

section \<open>Facade operations\<close>

definition send :: "frame \<Rightarrow> ws_client \<Rightarrow> ws_client" where
  "send event s =
     (case sioRef s of
        None \<Rightarrow> s\<lparr>loggedErrors := loggedErrors s @ [''WebSocket is not connected.'']\<rparr>
      | Some sio \<Rightarrow> s\<lparr>socketCalls := socketCalls s @ [SockEmit ''oh_user_action'' event]\<rparr>)"

text \<open>
  \<^verbatim>\<open>disconnect()\<close> as created by render \<open>r\<close>: the handlers it passes to \<^verbatim>\<open>sio.off\<close> are
  those of its own render. The facade exposes the \<^verbatim>\<open>disconnect\<close> of the render that last
  rebuilt the context value (line 389: on a change of \<open>status\<close>, \<open>events\<close>,
  \<open>replayStatus\<close> or the rate flag).
\<close>

definition disconnect :: "nat \<Rightarrow> ws_client \<Rightarrow> ws_client" where
  "disconnect r s =
     (case sioRef s of
        None \<Rightarrow> s
      | Some sio \<Rightarrow>
          s\<lparr>socketCalls := socketCalls s @ detach_calls r,
            closedSockets := closedSockets s @ [foldl sock_off sio (render_handlers r)],
            sioRef := None,
            status := DISCONNECTED\<rparr>)"

definition handleConnect :: "ws_client \<Rightarrow> ws_client" where
  "handleConnect s = s\<lparr>status := CONNECTED\<rparr>"

section \<open>The replay scheduler\<close>

text \<open>
  \<^verbatim>\<open>if (!Number.isNaN(parseInt(event.id as string, 10))) lastEventRef.current = event\<close>
\<close>

definition track_last :: "frame \<Rightarrow> frame option \<Rightarrow> frame option" where
  "track_last event cur = (if \<not> parseInt_isNaN (get_prop event ''id'') then Some event else cur)"

text \<open>
  \<^verbatim>\<open>processMessageQueue()\<close> up to the point where it has armed its timer. The guard
  returns early; otherwise the head of the queue is shifted out, appended to \<open>events\<close>,
  tracked, handed to \<^verbatim>\<open>handleAssistantMessage\<close>, and a timer is armed.
\<close>

definition processMessageQueue :: "ws_client \<Rightarrow> ws_client" where
  "processMessageQueue s =
     (if \<not> shouldProcessMessagesRef s \<or> processingQueueRef s \<or> messageQueueRef s = []
      then
        (if messageQueueRef s = [] \<and> \<not> processingQueueRef s
         then s\<lparr>replayStatus := COMPLETED\<rparr>
         else s)
      else
        (case messageQueueRef s of
           event # rest \<Rightarrow>
             s\<lparr>processingQueueRef := True, messageQueueRef := rest,
               events := events s @ [event],
               lastEventRef := track_last event (lastEventRef s),
               assistantMessages := assistantMessages s @ [event],
               replayTimers := Suc (replayTimers s)\<rparr>
         | [] \<Rightarrow> s\<lparr>processingQueueRef := False, replayStatus := COMPLETED\<rparr>))"

text \<open>
  The callback given to \<^verbatim>\<open>setTimeout\<close> (lines 247-256), run when one pending timer
  fires.
\<close>

definition timerCallback :: "ws_client \<Rightarrow> ws_client" where
  "timerCallback s =
     (let s1 = s\<lparr>replayTimers := replayTimers s - 1, processingQueueRef := False\<rparr> in
      if \<not> shouldProcessMessagesRef s1 then s1
      else processMessageQueue
             (if messageQueueRef s1 = [] then s1\<lparr>replayStatus := COMPLETED\<rparr> else s1))"

definition skipToResults :: "ws_client \<Rightarrow> ws_client" where
  "skipToResults s =
     (if messageQueueRef s = [] then s
      else
        let allEvents = messageQueueRef s in
        s\<lparr>messageQueueRef := [],
          events := events s @ allEvents,
          lastEventRef := (if allEvents \<noteq> [] then track_last (last allEvents) (lastEventRef s)
                           else lastEventRef s),
          assistantMessages := assistantMessages s @ allEvents,
          replayStatus := COMPLETED,
          processingQueueRef := False\<rparr>)"

text \<open>\<^verbatim>\<open>resetReplay()\<close>: lines 182-193 first, then the call of line 195.\<close>

definition resetReplay_reseed :: "ws_client \<Rightarrow> ws_client" where
  "resetReplay_reseed s =
     s\<lparr>replayStatus := IN_PROGRESS, events := [], messageQueueRef := events s,
       processingQueueRef := False,
       dispatched := dispatched s @ [ClearMessages, SetCurrentPathViewed [], ClearComputerList]\<rparr>"

definition resetReplay :: "ws_client \<Rightarrow> ws_client" where
  "resetReplay s = processMessageQueue (resetReplay_reseed s)"

text \<open>
  Firing the pending timers one after the other until none is left. Each callback
  either arms no new timer or takes one event off the queue, so the loop ends.
\<close>

function runTimers :: "ws_client \<Rightarrow> ws_client" where
  "runTimers s = (if replayTimers s = 0 then s else runTimers (timerCallback s))"
  by pat_completeness auto
termination
  by (relation "measure (\<lambda>s. 2 * length (messageQueueRef s) + replayTimers s)")
     (auto simp: timerCallback_def processMessageQueue_def Let_def split: list.splits)

declare runTimers.simps [simp del]

text \<open>
  The scheduler run to completion: the loop is started if it is idle, then the timers
  fire until none is pending.
\<close>

definition runScheduler :: "ws_client \<Rightarrow> ws_client" where
  "runScheduler s = runTimers (processMessageQueue s)"

section \<open>Transport handlers\<close>

definition handleMessage :: "frame \<Rightarrow> ws_client \<Rightarrow> ws_client" where
  "handleMessage event s =
     (let s1 = (if isOpenHandsEvent (JObj event) \<and> isMessageAction event
                then s\<lparr>rateRecords := Suc (rateRecords s)\<rparr> else s) in
      if isShareRoute s1
      then processMessageQueue (s1\<lparr>messageQueueRef := messageQueueRef s1 @ [event]\<rparr>)
      else s1\<lparr>events := events s1 @ [event],
              lastEventRef := track_last event (lastEventRef s1),
              assistantMessages := assistantMessages s1 @ [event]\<rparr>)"

text \<open>The frames of one connection, handled in arrival order.\<close>

fun handleMessages :: "frame list \<Rightarrow> ws_client \<Rightarrow> ws_client" where
  "handleMessages [] s = s"
| "handleMessages (event # rest) s = handleMessages rest (handleMessage event s)"

text \<open>\<^verbatim>\<open>updateStatusWhenErrorMessagePresent(data)\<close> as a step of the state.\<close>

definition reportError :: "jsval \<Rightarrow> ws_client \<Rightarrow> ws_client" where
  "reportError data s =
     (case updateStatusWhenErrorMessagePresent data of
        None \<Rightarrow> s
      | Some e \<Rightarrow> s\<lparr>chatErrors := chatErrors s @ [e]\<rparr>)"

text \<open>\<^verbatim>\<open>lastEventRef.current?.id\<close>\<close>

definition lastEventId :: "ws_client \<Rightarrow> jsval" where
  "lastEventId s = (case lastEventRef s of None \<Rightarrow> JUndefined | Some e \<Rightarrow> get_prop e ''id'')"

definition handleDisconnect :: "jsval \<Rightarrow> ws_client \<Rightarrow> ws_client" where
  "handleDisconnect data s =
     (let s1 = s\<lparr>status := DISCONNECTED\<rparr> in
      case sioRef s1 of
        None \<Rightarrow> s1
      | Some sio \<Rightarrow>
          reportError data (s1\<lparr>sioRef := Some (sio\<lparr>latest_event_id := lastEventId s1\<rparr>)\<rparr>))"

definition handleError :: "jsval \<Rightarrow> ws_client \<Rightarrow> ws_client" where
  "handleError data s =
     (let s1 = reportError data (s\<lparr>status := DISCONNECTED\<rparr>) in
      if isObject data \<and> has_key ''message'' (props_of data)
         \<and> isString (get_prop (props_of data) ''message'') \<and> isShareRoute s1
      then
        let errorMessage = str_of (get_prop (props_of data) ''message'') in
        if errorMessage = ''Conversation not published'' \<or> errorMessage = ''Conversation not found''
        then s1\<lparr>errorToasts := errorToasts s1 @ [''Conversation not published''],
                navigateTimers := Suc (navigateTimers s1)\<rparr>
        else s1
      else s1)"

section \<open>The connection effect\<close>

text \<open>
  The body of the effect (lines 321-369) as run by render \<open>r\<close>, for a conversation id, a
  token and the route flag of that render (the handlers it registers are those of
  render \<open>r\<close> and read that same flag); it throws when the id is empty. Its cleanup
  (lines 371-373) clears the processing flag. No pending timer is cancelled by either.
\<close>

definition connectEffect ::
  "nat \<Rightarrow> string \<Rightarrow> jsval \<Rightarrow> bool \<Rightarrow> ws_client \<Rightarrow> string + ws_client" where
  "connectEffect r conversationId jwt share s =
     (if conversationId = [] then Inl ''No conversation ID provided''
      else
        let s1 = s\<lparr>shouldProcessMessagesRef := True, isShareRoute := share\<rparr>;
            s2 = (case sioRef s1 of
                    None \<Rightarrow> s1
                  | Some sio \<Rightarrow>
                      s1\<lparr>socketCalls := socketCalls s1 @ detach_calls r,
                         closedSockets :=
                           closedSockets s1 @ [foldl sock_off sio (render_handlers r)],
                         sioRef := None\<rparr>);
            s3 = s2\<lparr>lastEventRef := None, messageQueueRef := [], processingQueueRef := False\<rparr>;
            s4 = (if share then s3\<lparr>replayStatus := IN_PROGRESS\<rparr> else s3);
            query = \<lparr> latest_event_id = JNum (- 1), conversation_id = conversationId, auth = jwt,
                      mode = (if share then Some ''shared'' else None),
                      listeners = render_handlers r \<rparr>
        in Inr (s4\<lparr>socketCalls := socketCalls s4 @
                      map (\<lambda>(name, h). SockOn name h) (render_handlers r),
                    sioRef := Some query\<rparr>))"

definition effectCleanup :: "ws_client \<Rightarrow> ws_client" where
  "effectCleanup s = s\<lparr>shouldProcessMessagesRef := False\<rparr>"

section \<open>Auxiliary notions for the statements\<close>

text \<open>The cursor after a run of tracked events: \<open>track_last\<close> applied from left to right.\<close>

definition track_all :: "frame list \<Rightarrow> frame option \<Rightarrow> frame option" where
  "track_all q cur = foldl (\<lambda>c e. track_last e c) cur q"

text \<open>The frames whose \<open>id\<close> parses as an integer.\<close>

definition numeric_id :: "frame \<Rightarrow> bool" where
  "numeric_id event = (\<not> parseInt_isNaN (get_prop event ''id''))"

text \<open>
  A pending timer always accompanies a raised processing flag: every operation of the
  provider keeps this.
\<close>

definition timer_armed :: "ws_client \<Rightarrow> bool" where
  "timer_armed s = (processingQueueRef s \<longrightarrow> 0 < replayTimers s)"

subsection \<open>Sample frames and sessions\<close>

definition frame1 :: frame where
  "frame1 = [(''id'', JNum 1), (''source'', JStr ''agent''), (''type'', JStr ''message''),
             (''message'', JStr ''hello''), (''timestamp'', JStr ''2025-01-01T00:00:00'')]"

definition frame2 :: frame where
  "frame2 = [(''id'', JNum 2), (''source'', JStr ''user''), (''type'', JStr ''message''),
             (''message'', JStr ''run it''), (''timestamp'', JStr ''2025-01-01T00:00:01'')]"

definition frame3 :: frame where
  "frame3 = [(''id'', JNum 3), (''source'', JStr ''agent''), (''type'', JStr ''action''),
             (''message'', JStr ''running''), (''timestamp'', JStr ''2025-01-01T00:00:02'')]"

text \<open>A frame without \<open>timestamp\<close>, and a frame of full shape whose id is not a number.\<close>

definition frame_no_timestamp :: frame where
  "frame_no_timestamp = [(''id'', JNum 4), (''source'', JStr ''agent''),
                         (''type'', JStr ''message''), (''message'', JStr ''late'')]"

definition frame_text_id :: frame where
  "frame_text_id = [(''id'', JStr ''abc''), (''source'', JStr ''agent''),
                    (''type'', JStr ''message''), (''message'', JStr ''x''),
                    (''timestamp'', JStr ''2025-01-01T00:00:03'')]"

text \<open>
  A session just mounted by the first render, number 0 (socket created, not yet
  connected), live or shared; and the same once the \<open>connect\<close> signal has set the status,
  which makes the provider render again and rebuild the context value (render 1).
\<close>

definition mounted :: "bool \<Rightarrow> ws_client" where
  "mounted share =
     (case connectEffect 0 ''conv'' (JStr ''jwt'') share initial_client of
        Inr s \<Rightarrow> s
      | Inl e \<Rightarrow> initial_client)"

definition live_client :: ws_client where
  "live_client = handleConnect (mounted False)"

definition share_client :: ws_client where
  "share_client = handleConnect (mounted True)"

text \<open>
  A replay under way on the share route: two frames have arrived, the first is delivered,
  the second is queued behind a pending timer.
\<close>

definition replay_running :: ws_client where
  "replay_running = handleMessages [frame1, frame2] share_client"

text \<open>
  The same replay after the transport has dropped: the \<open>disconnect\<close> signal is handled,
  then the pending timer fires and delivers the second frame.
\<close>

definition replay_dropped :: ws_client where
  "replay_dropped = timerCallback (handleDisconnect (JStr ''transport close'') replay_running)"

text \<open>
  The conversation changes while that replay is under way and the route stays shared:
  the cleanup runs, a later render (number 3) runs the effect again, and the first two
  frames of the new conversation arrive. The timer of the old conversation is still
  pending.
\<close>

definition replay_switched :: ws_client where
  "replay_switched =
     handleMessages [frame3, frame_text_id]
       (projr (connectEffect 3 ''other'' (JStr ''jwt'') True (effectCleanup replay_running)))"

text \<open>The payload of a failed connection attempt.\<close>

definition socket_error :: jsval where
  "socket_error = JObj [(''message'', JStr ''websocket error'')]"

section \<open>Integer ids always parse\<close>

lemma digit_char_digit: "d < 10 \<Longrightarrow> isDigit10 (digit_char d)"
proof -
  assume "d < 10"
  then have "d \<in> {0,1,2,3,4,5,6,7,8,9}" by auto
  then show ?thesis by (auto simp: isDigit10_def digit_char_def)
qed

lemma digits10_head: "\<exists>c cs. digits10 n = c # cs \<and> isDigit10 c"
proof (induction n rule: digits10.induct)
  case (1 n)
  show ?case
  proof (cases "n < 10")
    case True
    then show ?thesis by (subst digits10.simps) (simp add: digit_char_digit)
  next
    case False
    with 1 obtain c cs where "digits10 (n div 10) = c # cs" "isDigit10 c" by blast
    with False show ?thesis by (subst digits10.simps) simp
  qed
qed

lemma digit_not_space:
  "isDigit10 c \<Longrightarrow> \<not> isStrWhiteSpace c \<and> c \<noteq> CHR ''-'' \<and> c \<noteq> CHR ''+''"
  by (auto simp: isDigit10_def isStrWhiteSpace_def)

lemma parseInt_JNum: "\<not> parseInt_isNaN (JNum n)"
proof (cases "n < 0")
  case True
  obtain c cs where d: "digits10 (nat (- n)) = c # cs" "isDigit10 c"
    using digits10_head by blast
  with True show ?thesis
    by (simp add: parseInt_isNaN_def isStrWhiteSpace_def)
next
  case False
  obtain c cs where d: "digits10 (nat n) = c # cs" "isDigit10 c"
    using digits10_head by blast
  with False digit_not_space [OF d(2)] show ?thesis
    by (simp add: parseInt_isNaN_def)
qed

lemma parseInt_text: "parseInt_isNaN (JStr ''abc'')"
  by (simp add: parseInt_isNaN_def isStrWhiteSpace_def isDigit10_def)

lemma parseInt_undefined: "parseInt_isNaN JUndefined"
  by (simp add: parseInt_isNaN_def isStrWhiteSpace_def isDigit10_def)

section \<open>The timer loop\<close>

text \<open>With an empty queue the pending timers only mark the replay completed.\<close>

lemma runTimers_empty:
  "shouldProcessMessagesRef s \<Longrightarrow> messageQueueRef s = [] \<Longrightarrow>
   runTimers s = (if replayTimers s = 0 then s
                  else s\<lparr>replayTimers := 0, processingQueueRef := False, replayStatus := COMPLETED\<rparr>)"
proof (induction "replayTimers s" arbitrary: s)
  case 0
  then show ?case by (simp add: runTimers.simps)
next
  case (Suc n)
  let ?t = "timerCallback s"
  have t: "?t = s\<lparr>replayTimers := n, processingQueueRef := False, replayStatus := COMPLETED\<rparr>"
    using Suc.prems Suc.hyps(2) [symmetric]
    by (simp add: timerCallback_def processMessageQueue_def Let_def)
  have "runTimers s = runTimers ?t"
    using Suc.hyps(2) [symmetric] by (subst runTimers.simps) simp
  also have "\<dots> = (if replayTimers ?t = 0 then ?t
                  else ?t\<lparr>replayTimers := 0, processingQueueRef := False, replayStatus := COMPLETED\<rparr>)"
    by (rule Suc.hyps(1)) (use Suc.prems t in simp_all)
  finally show ?case using Suc.hyps(2) [symmetric] by (simp add: t)
qed

text \<open>
  With the flag set and a timer pending, the loop delivers the whole queue in order and
  ends with the replay completed and no timer left.
\<close>

lemma runTimers_drains:
  "shouldProcessMessagesRef s \<Longrightarrow> 0 < replayTimers s \<Longrightarrow>
   runTimers s = s\<lparr>events := events s @ messageQueueRef s,
                   assistantMessages := assistantMessages s @ messageQueueRef s,
                   lastEventRef := track_all (messageQueueRef s) (lastEventRef s),
                   messageQueueRef := [], replayTimers := 0,
                   processingQueueRef := False, replayStatus := COMPLETED\<rparr>"
proof (induction "messageQueueRef s" arbitrary: s)
  case Nil
  then show ?case
    using runTimers_empty [of s] by (simp add: track_all_def)
next
  case (Cons e q)
  let ?t = "timerCallback s"
  have t: "?t = s\<lparr>processingQueueRef := True, messageQueueRef := q,
               events := events s @ [e],
               lastEventRef := track_last e (lastEventRef s),
               assistantMessages := assistantMessages s @ [e]\<rparr>"
    using Cons.prems Cons.hyps(2) [symmetric]
    by (simp add: timerCallback_def processMessageQueue_def Let_def)
  have "runTimers s = runTimers ?t"
    using Cons.prems by (subst runTimers.simps) simp
  also have "\<dots> = ?t\<lparr>events := events ?t @ messageQueueRef ?t,
                   assistantMessages := assistantMessages ?t @ messageQueueRef ?t,
                   lastEventRef := track_all (messageQueueRef ?t) (lastEventRef ?t),
                   messageQueueRef := [], replayTimers := 0,
                   processingQueueRef := False, replayStatus := COMPLETED\<rparr>"
    by (rule Cons.hyps(1)) (use Cons.prems t in simp_all)
  finally show ?case using Cons.hyps(2) [symmetric] by (simp add: t track_all_def)
qed

text \<open>With the flag cleared, the pending timers fire without touching log or queue.\<close>

lemma runTimers_cancelled:
  "\<not> shouldProcessMessagesRef s \<Longrightarrow>
   runTimers s = (if replayTimers s = 0 then s
                  else s\<lparr>replayTimers := 0, processingQueueRef := False\<rparr>)"
proof (induction "replayTimers s" arbitrary: s)
  case 0
  then show ?case by (simp add: runTimers.simps)
next
  case (Suc n)
  let ?t = "timerCallback s"
  have t: "?t = s\<lparr>replayTimers := n, processingQueueRef := False\<rparr>"
    using Suc.prems Suc.hyps(2) [symmetric] by (simp add: timerCallback_def Let_def)
  have "runTimers s = runTimers ?t"
    using Suc.hyps(2) [symmetric] by (subst runTimers.simps) simp
  also have "\<dots> = (if replayTimers ?t = 0 then ?t
                  else ?t\<lparr>replayTimers := 0, processingQueueRef := False\<rparr>)"
    by (rule Suc.hyps(1)) (use Suc.prems t in simp_all)
  finally show ?case using Suc.hyps(2) [symmetric] by (simp add: t)
qed

section \<open>Unfolding the sample sessions\<close>

lemmas sample_defs = live_client_def share_client_def mounted_def connectEffect_def
  render_handlers_def detach_calls_def sock_off_def
  initial_client_def handleConnect_def Let_def

section \<open>Live ingestion\<close>

lemma track_all_snoc: "track_all (fs @ [f]) cur = track_last f (track_all fs cur)"
  by (simp add: track_all_def)

lemma track_last_numeric: "track_last f cur = (if numeric_id f then Some f else cur)"
  by (simp add: track_last_def numeric_id_def)

lemma track_all_last:
  "track_all fs cur =
     (if filter numeric_id fs = [] then cur else Some (last (filter numeric_id fs)))"
proof (induction fs rule: rev_induct)
  case Nil
  show ?case by (simp add: track_all_def)
next
  case (snoc f fs)
  then show ?case by (simp add: track_all_snoc track_last_numeric)
qed

lemma handleMessage_live:
  "\<not> isShareRoute s \<Longrightarrow>
   handleMessage f s =
     s\<lparr>events := events s @ [f], lastEventRef := track_last f (lastEventRef s),
       assistantMessages := assistantMessages s @ [f],
       rateRecords := (if isOpenHandsEvent (JObj f) \<and> isMessageAction f
                       then Suc (rateRecords s) else rateRecords s)\<rparr>"
  by (simp add: handleMessage_def Let_def)

lemma handleMessages_live:
  "\<not> isShareRoute s \<Longrightarrow>
   isShareRoute (handleMessages fs s) = isShareRoute s
   \<and> events (handleMessages fs s) = events s @ fs
   \<and> assistantMessages (handleMessages fs s) = assistantMessages s @ fs
   \<and> lastEventRef (handleMessages fs s) = track_all fs (lastEventRef s)
   \<and> messageQueueRef (handleMessages fs s) = messageQueueRef s
   \<and> replayStatus (handleMessages fs s) = replayStatus s"
proof (induction fs arbitrary: s)
  case Nil
  then show ?case by (simp add: track_all_def)
next
  case (Cons f fs)
  let ?t = "handleMessage f s"
  have t: "\<not> isShareRoute ?t" "events ?t = events s @ [f]"
    "assistantMessages ?t = assistantMessages s @ [f]"
    "lastEventRef ?t = track_last f (lastEventRef s)"
    "messageQueueRef ?t = messageQueueRef s" "replayStatus ?t = replayStatus s"
    using Cons.prems by (simp_all add: handleMessage_live)
  from Cons.IH [OF t(1)] t Cons.prems show ?case
    by (simp add: track_all_def)
qed

lemma numeric_id_JNum: "map_of f ''id'' = Some (JNum n) \<Longrightarrow> numeric_id f"
  by (simp add: numeric_id_def get_prop_def parseInt_JNum)

lemma live_client_live: "\<not> isShareRoute live_client"
  by (simp add: live_client_def mounted_def connectEffect_def initial_client_def
                handleConnect_def Let_def)

lemma sample_numeric: "numeric_id frame1" "numeric_id frame2" "numeric_id frame3"
  "numeric_id frame_no_timestamp" "\<not> numeric_id frame_text_id"
  by (simp_all add: numeric_id_JNum frame1_def frame2_def frame3_def frame_no_timestamp_def)
     (simp add: numeric_id_def get_prop_def frame_text_id_def parseInt_text)

text \<open>
  Claim C1, as amended. In LIVE mode (non-share route), for every sequence of inbound
  frames arriving on one connection, \<open>events\<close> grows by exactly those frames in arrival
  order, none being dropped by validation, and each is handed to the consumer; the
  resume cursor is the last frame whose \<open>id\<close> parses as an integer and is unchanged
  when there is none. When every frame has such an id, the cursor is the \<open>id\<close> of the
  last frame.
\<close>

theorem live_log_holds_every_frame:
  assumes "\<not> isShareRoute s"
  shows "events (handleMessages fs s) = events s @ fs
       \<and> assistantMessages (handleMessages fs s) = assistantMessages s @ fs
       \<and> lastEventRef (handleMessages fs s) =
           (if filter numeric_id fs = [] then lastEventRef s
            else Some (last (filter numeric_id fs)))
       \<and> (fs \<noteq> [] \<and> (\<forall>f \<in> set fs. numeric_id f) \<longrightarrow>
            lastEventId (handleMessages fs s) = get_prop (last fs) ''id'')"
proof -
  note live = handleMessages_live [OF assms, of fs]
  have cur: "lastEventRef (handleMessages fs s) =
           (if filter numeric_id fs = [] then lastEventRef s
            else Some (last (filter numeric_id fs)))"
    using live by (simp add: track_all_last)
  have "lastEventId (handleMessages fs s) = get_prop (last fs) ''id''"
    if "fs \<noteq> []" "\<forall>f \<in> set fs. numeric_id f"
  proof -
    from that(2) have "filter numeric_id fs = fs" by (simp add: filter_id_conv)
    with that(1) cur show ?thesis by (simp add: lastEventId_def)
  qed
  with live cur show ?thesis by blast
qed

theorem live_log_holds_every_frame_witness:
  "\<not> isShareRoute live_client
   \<and> numeric_id frame1 \<and> numeric_id frame2 \<and> numeric_id frame3
   \<and> events (handleMessages [frame1, frame2, frame3] live_client) = [frame1, frame2, frame3]
   \<and> lastEventId (handleMessages [frame1, frame2, frame3] live_client) = JNum 3"
proof -
  have ev: "events live_client = []"
    by (simp add: live_client_def mounted_def connectEffect_def initial_client_def
                  handleConnect_def Let_def)
  have num: "\<forall>f \<in> set [frame1, frame2, frame3]. numeric_id f"
    by (simp add: sample_numeric)
  have id3: "get_prop (last [frame1, frame2, frame3]) ''id'' = JNum 3"
    by (simp add: get_prop_def frame3_def)
  show ?thesis
    using live_log_holds_every_frame [OF live_client_live, of "[frame1, frame2, frame3]"]
          live_client_live ev num id3 sample_numeric
    by simp
qed

text \<open>
  The claim as stated fails: of three frames, the second lacks \<open>timestamp\<close> and fails
  \<open>isOpenHandsEvent\<close>, yet all three are in \<open>events\<close>; and the cursor is the \<open>id\<close> of
  that second frame, not of the last frame that passes the guard.
\<close>

theorem live_log_counterexample:
  "\<not> isShareRoute live_client
   \<and> events (handleMessages [frame1, frame_no_timestamp, frame_text_id] live_client)
       = [frame1, frame_no_timestamp, frame_text_id]
   \<and> filter (\<lambda>f. isOpenHandsEvent (JObj f)) [frame1, frame_no_timestamp, frame_text_id]
       = [frame1, frame_text_id]
   \<and> events (handleMessages [frame1, frame_no_timestamp, frame_text_id] live_client)
       \<noteq> filter (\<lambda>f. isOpenHandsEvent (JObj f)) [frame1, frame_no_timestamp, frame_text_id]
   \<and> lastEventId (handleMessages [frame1, frame_no_timestamp, frame_text_id] live_client)
       = JNum 4
   \<and> get_prop (last (filter (\<lambda>f. isOpenHandsEvent (JObj f))
                       [frame1, frame_no_timestamp, frame_text_id])) ''id'' = JStr ''abc''"
  by code_simp

text \<open>
  Claim C2, as amended. \<open>isOpenHandsEvent\<close> accepts exactly the objects that have
  \<open>id\<close>, \<open>source\<close>, \<open>message\<close> and \<open>timestamp\<close> (it does not look at \<open>type\<close>). A frame
  that fails it is left out of the rate monitor only: in LIVE mode it is still appended
  to \<open>events\<close>, and in REPLAY mode it still joins the queue behind the events already
  there, so the log may hold events that lack those fields.
\<close>

theorem guard_only_gates_rate:
  "isOpenHandsEvent (JObj f) =
     (has_key ''id'' f \<and> has_key ''source'' f \<and> has_key ''message'' f \<and> has_key ''timestamp'' f)
   \<and> (\<not> isOpenHandsEvent (JObj f) \<longrightarrow> rateRecords (handleMessage f s) = rateRecords s)
   \<and> (\<not> isShareRoute s \<longrightarrow> events (handleMessage f s) = events s @ [f])
   \<and> (isShareRoute s \<longrightarrow>
        events (handleMessage f s) @ messageQueueRef (handleMessage f s)
          = events s @ messageQueueRef s @ [f])"
proof -
  have a: "isOpenHandsEvent (JObj f) =
     (has_key ''id'' f \<and> has_key ''source'' f \<and> has_key ''message'' f \<and> has_key ''timestamp'' f)"
    by (simp add: isOpenHandsEvent_def)
  have b: "rateRecords (handleMessage f s) = rateRecords s" if "\<not> isOpenHandsEvent (JObj f)"
    using that
    by (simp add: handleMessage_def processMessageQueue_def Let_def split: list.splits)
  have c: "events (handleMessage f s) = events s @ [f]" if "\<not> isShareRoute s"
    using that by (simp add: handleMessage_live)
  have d: "events (handleMessage f s) @ messageQueueRef (handleMessage f s)
          = events s @ messageQueueRef s @ [f]" if "isShareRoute s"
    using that
    by (cases "messageQueueRef s")
       (simp_all add: handleMessage_def processMessageQueue_def Let_def)
  from a b c d show ?thesis by blast
qed

theorem guard_only_gates_rate_witness:
  "\<not> isOpenHandsEvent (JObj frame_no_timestamp)
   \<and> rateRecords (handleMessage frame_no_timestamp live_client) = rateRecords live_client
   \<and> \<not> isShareRoute live_client
   \<and> events (handleMessage frame_no_timestamp live_client) = [frame_no_timestamp]
   \<and> isShareRoute share_client
   \<and> events (handleMessage frame_no_timestamp share_client)
       @ messageQueueRef (handleMessage frame_no_timestamp share_client) = [frame_no_timestamp]"
proof -
  have h: "\<not> isOpenHandsEvent (JObj frame_no_timestamp)"
    by (simp add: isOpenHandsEvent_def has_key_def frame_no_timestamp_def)
  have l: "\<not> isShareRoute live_client" "events live_client = []"
    by (simp_all add: sample_defs)
  have r: "isShareRoute share_client" "events share_client = []" "messageQueueRef share_client = []"
    by (simp_all add: sample_defs)
  show ?thesis
    using h l r guard_only_gates_rate [of frame_no_timestamp live_client]
          guard_only_gates_rate [of frame_no_timestamp share_client]
    by simp
qed

text \<open>
  The claim as stated fails: a frame without \<open>timestamp\<close> is in \<open>events\<close> after
  \<open>handleMessage\<close>.
\<close>

theorem malformed_frame_counterexample:
  "\<not> has_key ''timestamp'' frame_no_timestamp
   \<and> \<not> isOpenHandsEvent (JObj frame_no_timestamp)
   \<and> \<not> isShareRoute live_client
   \<and> frame_no_timestamp \<in> set (events (handleMessage frame_no_timestamp live_client))"
  by code_simp

section \<open>Skipping and restarting a replay\<close>

lemma processMessageQueue_starts:
  "shouldProcessMessagesRef s \<Longrightarrow> \<not> processingQueueRef s \<Longrightarrow> messageQueueRef s = e # q \<Longrightarrow>
   processMessageQueue s =
     s\<lparr>processingQueueRef := True, messageQueueRef := q, events := events s @ [e],
       lastEventRef := track_last e (lastEventRef s),
       assistantMessages := assistantMessages s @ [e],
       replayTimers := Suc (replayTimers s)\<rparr>"
  by (simp add: processMessageQueue_def)

lemma processMessageQueue_busy:
  "processingQueueRef s \<Longrightarrow> processMessageQueue s = s"
  by (simp add: processMessageQueue_def)

lemma runScheduler_drains:
  assumes "shouldProcessMessagesRef s" "timer_armed s" "messageQueueRef s \<noteq> []"
  shows "runScheduler s =
           s\<lparr>events := events s @ messageQueueRef s,
             assistantMessages := assistantMessages s @ messageQueueRef s,
             lastEventRef := track_all (messageQueueRef s) (lastEventRef s),
             messageQueueRef := [], replayTimers := 0,
             processingQueueRef := False, replayStatus := COMPLETED\<rparr>"
proof (cases "processingQueueRef s")
  case True
  then have "0 < replayTimers s" using assms(2) by (simp add: timer_armed_def)
  with True assms(1) show ?thesis
    by (simp add: runScheduler_def processMessageQueue_busy runTimers_drains)
next
  case False
  obtain e q where q: "messageQueueRef s = e # q"
    using assms(3) by (cases "messageQueueRef s") auto
  let ?t = "processMessageQueue s"
  have t: "?t = s\<lparr>processingQueueRef := True, messageQueueRef := q, events := events s @ [e],
       lastEventRef := track_last e (lastEventRef s),
       assistantMessages := assistantMessages s @ [e],
       replayTimers := Suc (replayTimers s)\<rparr>"
    using assms(1) False q by (rule processMessageQueue_starts)
  have "shouldProcessMessagesRef ?t" "0 < replayTimers ?t"
    using assms(1) by (simp_all add: t)
  then have "runTimers ?t = ?t\<lparr>events := events ?t @ messageQueueRef ?t,
                   assistantMessages := assistantMessages ?t @ messageQueueRef ?t,
                   lastEventRef := track_all (messageQueueRef ?t) (lastEventRef ?t),
                   messageQueueRef := [], replayTimers := 0,
                   processingQueueRef := False, replayStatus := COMPLETED\<rparr>"
    by (rule runTimers_drains)
  then show ?thesis
    by (simp add: runScheduler_def t q track_all_def)
qed

lemma skipToResults_fields:
  assumes "messageQueueRef s \<noteq> []"
  shows "skipToResults s =
     s\<lparr>messageQueueRef := [], events := events s @ messageQueueRef s,
       lastEventRef := track_last (last (messageQueueRef s)) (lastEventRef s),
       assistantMessages := assistantMessages s @ messageQueueRef s,
       replayStatus := COMPLETED, processingQueueRef := False\<rparr>"
  using assms by (simp add: skipToResults_def Let_def)

text \<open>Every operation keeps a pending timer beside a raised processing flag.\<close>

lemma timer_armed_kept:
  assumes "timer_armed s"
  shows "timer_armed (processMessageQueue s)" "timer_armed (handleMessage f s)"
    "timer_armed (skipToResults s)" "timer_armed (resetReplay s)"
    "timer_armed (timerCallback s)" "timer_armed (send f s)" "timer_armed (disconnect r s)"
    "timer_armed (handleConnect s)" "timer_armed (handleDisconnect d s)"
    "timer_armed (handleError d s)" "timer_armed (effectCleanup s)"
  using assms
  by (auto simp: timer_armed_def processMessageQueue_def handleMessage_def skipToResults_def
        resetReplay_def resetReplay_reseed_def timerCallback_def send_def disconnect_def
        handleConnect_def handleDisconnect_def handleError_def reportError_def
        effectCleanup_def Let_def
      split: list.splits option.splits if_splits)

text \<open>
  Claim C3. For every state with a non-empty replay queue (in a session whose
  processing flag is set and whose raised busy flag has its timer pending),
  \<open>skipToResults()\<close> yields the same \<open>events\<close> and hands the same events to the consumer,
  in the same order, as the scheduler's timer loop run to completion: the log followed
  by the queue. It does so in one step, arming no timer, leaves the queue empty and
  sets the replay status to COMPLETED at once; the loop ends COMPLETED too.
\<close>

theorem skipToResults_matches_scheduler:
  assumes "messageQueueRef s \<noteq> []" and "shouldProcessMessagesRef s" and "timer_armed s"
  shows "events (skipToResults s) = events (runScheduler s)
       \<and> assistantMessages (skipToResults s) = assistantMessages (runScheduler s)
       \<and> events (skipToResults s) = events s @ messageQueueRef s
       \<and> replayStatus (skipToResults s) = COMPLETED
       \<and> messageQueueRef (skipToResults s) = []
       \<and> replayTimers (skipToResults s) = replayTimers s
       \<and> replayStatus (runScheduler s) = COMPLETED"
  by (simp add: skipToResults_fields [OF assms(1)] runScheduler_drains [OF assms(2,3,1)])


theorem skipToResults_matches_scheduler_witness:
  "messageQueueRef (handleMessages [frame1, frame2, frame3] share_client) \<noteq> []
   \<and> shouldProcessMessagesRef (handleMessages [frame1, frame2, frame3] share_client)
   \<and> processingQueueRef (handleMessages [frame1, frame2, frame3] share_client)
   \<and> replayTimers (handleMessages [frame1, frame2, frame3] share_client) = 1
   \<and> events (runScheduler (handleMessages [frame1, frame2, frame3] share_client))
       = [frame1, frame2, frame3]
   \<and> events (skipToResults (handleMessages [frame1, frame2, frame3] share_client))
       = [frame1, frame2, frame3]
   \<and> replayStatus (skipToResults (handleMessages [frame1, frame2, frame3] share_client))
       = COMPLETED"
proof -
  let ?c = "handleMessages [frame1, frame2, frame3] share_client"
  have h1: "messageQueueRef ?c \<noteq> []" by code_simp
  have h2: "shouldProcessMessagesRef ?c" by code_simp
  have h3: "timer_armed ?c" by code_simp
  have h4: "processingQueueRef ?c" "replayTimers ?c = 1" by code_simp+
  have ev: "events (skipToResults ?c) = [frame1, frame2, frame3]" by code_simp
  show ?thesis
    using skipToResults_matches_scheduler [OF h1 h2 h3] h1 h2 h4 ev by simp
qed

lemma resetReplay_runs:
  assumes "shouldProcessMessagesRef s"
  shows "events (runTimers (resetReplay s)) = events s"
    and "assistantMessages (runTimers (resetReplay s)) = assistantMessages s @ events s"
    and "replayStatus (runTimers (resetReplay s)) = COMPLETED"
    and "messageQueueRef (runTimers (resetReplay s)) = []"
proof -
  let ?r = "resetReplay_reseed s"
  have r: "shouldProcessMessagesRef ?r" "\<not> processingQueueRef ?r" "messageQueueRef ?r = events s"
    "events ?r = []" "assistantMessages ?r = assistantMessages s"
    using assms by (simp_all add: resetReplay_reseed_def)
  have all: "events (runTimers (resetReplay s)) = events s
      \<and> assistantMessages (runTimers (resetReplay s)) = assistantMessages s @ events s
      \<and> replayStatus (runTimers (resetReplay s)) = COMPLETED
      \<and> messageQueueRef (runTimers (resetReplay s)) = []"
  proof (cases "events s")
    case Nil
    let ?p = "?r\<lparr>replayStatus := COMPLETED\<rparr>"
    have p: "resetReplay s = ?p"
      using r Nil by (simp add: resetReplay_def processMessageQueue_def)
    have "runTimers ?p = (if replayTimers ?p = 0 then ?p
            else ?p\<lparr>replayTimers := 0, processingQueueRef := False, replayStatus := COMPLETED\<rparr>)"
      by (rule runTimers_empty) (use r Nil in simp_all)
    then show ?thesis using r Nil by (simp add: p)
  next
    case (Cons e q)
    have "timer_armed ?r" using r by (simp add: timer_armed_def)
    from runScheduler_drains [OF r(1) this] r Cons
    show ?thesis by (simp add: runScheduler_def resetReplay_def)
  qed
  from all show "events (runTimers (resetReplay s)) = events s" by simp
  from all show "assistantMessages (runTimers (resetReplay s)) = assistantMessages s @ events s"
    by simp
  from all show "replayStatus (runTimers (resetReplay s)) = COMPLETED" by simp
  from all show "messageQueueRef (runTimers (resetReplay s)) = []" by simp
qed

lemma resetReplay_first_step:
  assumes "shouldProcessMessagesRef s" "events s = e # q"
  shows "events (resetReplay s) = [e]" "messageQueueRef (resetReplay s) = q"
    "replayStatus (resetReplay s) = IN_PROGRESS"
    "replayTimers (resetReplay s) = Suc (replayTimers s)"
  using assms by (simp_all add: resetReplay_def resetReplay_reseed_def processMessageQueue_def)

text \<open>
  Claim C4. For every session that has reached COMPLETED with event log \<open>L\<close>,
  \<open>resetReplay()\<close> re-seeds the queue with exactly \<open>L\<close>, empties the log and sets the
  status to IN_PROGRESS, then starts the scheduler; running the timers to completion
  reproduces the log \<open>L\<close> in the same order, hands \<open>L\<close> to the consumer again, and ends
  with the status COMPLETED. For a non-empty \<open>L\<close> the status is IN_PROGRESS when
  \<open>resetReplay()\<close> returns.
\<close>

theorem resetReplay_replays_log:
  assumes "shouldProcessMessagesRef s" and "replayStatus s = COMPLETED"
  shows "messageQueueRef (resetReplay_reseed s) = events s
       \<and> events (resetReplay_reseed s) = []
       \<and> replayStatus (resetReplay_reseed s) = IN_PROGRESS
       \<and> runTimers (resetReplay s) = runScheduler (resetReplay_reseed s)
       \<and> events (runTimers (resetReplay s)) = events s
       \<and> assistantMessages (runTimers (resetReplay s)) = assistantMessages s @ events s
       \<and> replayStatus (runTimers (resetReplay s)) = COMPLETED
       \<and> (events s \<noteq> [] \<longrightarrow> replayStatus (resetReplay s) = IN_PROGRESS)"
proof -
  have "replayStatus (resetReplay s) = IN_PROGRESS" if "events s \<noteq> []"
  proof -
    from that obtain e q where "events s = e # q" by (cases "events s") auto
    with assms(1) show ?thesis by (rule resetReplay_first_step(3))
  qed
  then show ?thesis
    using resetReplay_runs [OF assms(1)]
    by (simp add: resetReplay_reseed_def runScheduler_def resetReplay_def)
qed

theorem resetReplay_replays_log_witness:
  "shouldProcessMessagesRef (runTimers (handleMessages [frame1, frame2, frame3] share_client))
   \<and> replayStatus (runTimers (handleMessages [frame1, frame2, frame3] share_client)) = COMPLETED
   \<and> events (runTimers (handleMessages [frame1, frame2, frame3] share_client))
       = [frame1, frame2, frame3]
   \<and> events (runTimers (resetReplay
         (runTimers (handleMessages [frame1, frame2, frame3] share_client))))
       = [frame1, frame2, frame3]
   \<and> replayStatus (runTimers (resetReplay
         (runTimers (handleMessages [frame1, frame2, frame3] share_client)))) = COMPLETED
   \<and> replayStatus (resetReplay
         (runTimers (handleMessages [frame1, frame2, frame3] share_client))) = IN_PROGRESS"
proof -
  let ?c = "runTimers (handleMessages [frame1, frame2, frame3] share_client)"
  have h1: "shouldProcessMessagesRef ?c" by code_simp
  have h2: "replayStatus ?c = COMPLETED" by code_simp
  have ev: "events ?c = [frame1, frame2, frame3]" by code_simp
  have ne: "events ?c \<noteq> []" using ev by simp
  note run = resetReplay_replays_log [OF h1 h2]
  have a: "events (runTimers (resetReplay ?c)) = events ?c" using run by blast
  have b: "replayStatus (runTimers (resetReplay ?c)) = COMPLETED" using run by blast
  have c: "replayStatus (resetReplay ?c) = IN_PROGRESS" using run ne by blast
  show ?thesis
    using h1 h2 ev a b c by simp
qed

section \<open>Cancellation\<close>

text \<open>While the flag is cleared, a timer that fires only lowers the busy flag.\<close>

lemma timerCallback_cancelled:
  "\<not> shouldProcessMessagesRef s \<Longrightarrow>
   timerCallback s = s\<lparr>replayTimers := replayTimers s - 1, processingQueueRef := False\<rparr>"
  by (simp add: timerCallback_def Let_def)

text \<open>The effect sets the flag again, empties the queue and leaves the timers pending.\<close>

lemma connectEffect_fresh:
  assumes "connectEffect r c j share s = Inr s'"
  shows "messageQueueRef s' = []" "shouldProcessMessagesRef s'" "events s' = events s"
    "assistantMessages s' = assistantMessages s" "replayTimers s' = replayTimers s"
    "\<not> processingQueueRef s'"
  using assms
  by (auto simp: connectEffect_def Let_def split: if_splits option.splits)

lemma timerCallback_empty_queue:
  assumes "shouldProcessMessagesRef s" "messageQueueRef s = []"
  shows "timerCallback s =
           s\<lparr>replayTimers := replayTimers s - 1, processingQueueRef := False,
             replayStatus := COMPLETED\<rparr>"
  using assms by (simp add: timerCallback_def processMessageQueue_def Let_def)

text \<open>
  Claim C6. Once the processing flag has been cleared, a replay timer callback that
  fires must deliver nothing: append nothing to \<open>events\<close>, forward nothing and arm no
  further timer. The code keeps this only while the flag is still cleared when the timer
  fires (\<open>timerCallback_cancelled\<close>). The flag is cleared by the effect's cleanup, whose
  comment says it stops message processing when unmounting or changing routes; but the
  effect sets the flag again as it re-runs and no timer is cancelled. So after a change
  of conversation on the share route the timer of the destroyed session fires in the new
  one, finds the flag set, takes the next event off the new queue, appends it to \<open>events\<close>,
  forwards it and arms another timer.
\<close>

theorem leftover_timer_delivers:
  "replayTimers replay_running = 1
   \<and> \<not> shouldProcessMessagesRef (effectCleanup replay_running)
   \<and> connectEffect 3 ''other'' (JStr ''jwt'') True (effectCleanup replay_running)
       = Inr (projr (connectEffect 3 ''other'' (JStr ''jwt'') True (effectCleanup replay_running)))
   \<and> replayTimers (projr (connectEffect 3 ''other'' (JStr ''jwt'') True
                       (effectCleanup replay_running))) = 1
   \<and> shouldProcessMessagesRef replay_switched
   \<and> events replay_switched = [frame1, frame3]
   \<and> assistantMessages replay_switched = [frame1, frame3]
   \<and> messageQueueRef replay_switched = [frame_text_id]
   \<and> replayTimers replay_switched = 2
   \<and> events (timerCallback replay_switched) = [frame1, frame3, frame_text_id]
   \<and> assistantMessages (timerCallback replay_switched) = [frame1, frame3, frame_text_id]
   \<and> replayTimers (timerCallback replay_switched) = 2"
  by code_simp

section \<open>Guards of the replay operations\<close>

text \<open>
  Claim C7, as amended. \<open>skipToResults()\<close> with an empty replay queue is a no-op, in
  whatever mode; in LIVE mode inbound frames never enter the queue, so it stays a no-op
  there as frames arrive. \<open>resetReplay()\<close> has no guard on the mode or on the queue:
  whenever the log is non-empty (and the processing flag set) it moves the log into the
  queue, delivers its first event again, sets IN_PROGRESS and arms a timer.
\<close>

theorem skipToResults_empty_is_noop:
  "(messageQueueRef s = [] \<longrightarrow> skipToResults s = s)
   \<and> (\<not> isShareRoute s \<and> messageQueueRef s = [] \<longrightarrow>
        skipToResults (handleMessages fs s) = handleMessages fs s)
   \<and> (shouldProcessMessagesRef s \<and> events s \<noteq> [] \<longrightarrow>
        events (resetReplay s) = [hd (events s)]
        \<and> messageQueueRef (resetReplay s) = tl (events s)
        \<and> replayStatus (resetReplay s) = IN_PROGRESS
        \<and> replayTimers (resetReplay s) = Suc (replayTimers s))"
proof -
  have a: "skipToResults s = s" if "messageQueueRef s = []" for s
    using that by (simp add: skipToResults_def)
  have b: "skipToResults (handleMessages fs s) = handleMessages fs s"
    if "\<not> isShareRoute s \<and> messageQueueRef s = []"
    using that handleMessages_live [of s fs] by (simp add: a)
  have c: "events (resetReplay s) = [hd (events s)]
        \<and> messageQueueRef (resetReplay s) = tl (events s)
        \<and> replayStatus (resetReplay s) = IN_PROGRESS
        \<and> replayTimers (resetReplay s) = Suc (replayTimers s)"
    if "shouldProcessMessagesRef s \<and> events s \<noteq> []"
  proof -
    from that obtain e q where "events s = e # q" by (cases "events s") auto
    with that resetReplay_first_step [of s e q] show ?thesis by simp
  qed
  from a b c show ?thesis by blast
qed

theorem skipToResults_empty_is_noop_witness:
  "messageQueueRef live_client = [] \<and> \<not> isShareRoute live_client
   \<and> skipToResults live_client = live_client
   \<and> skipToResults (handleMessages [frame1, frame2] live_client)
       = handleMessages [frame1, frame2] live_client
   \<and> shouldProcessMessagesRef (handleMessages [frame1, frame2] live_client)
   \<and> events (handleMessages [frame1, frame2] live_client) \<noteq> []
   \<and> messageQueueRef (resetReplay (handleMessages [frame1, frame2] live_client))
       = tl (events (handleMessages [frame1, frame2] live_client))"
proof -
  have q: "messageQueueRef live_client = []" by (simp add: sample_defs)
  let ?c = "handleMessages [frame1, frame2] live_client"
  have h: "shouldProcessMessagesRef ?c" by code_simp
  have e: "events ?c \<noteq> []" by code_simp
  note noop = skipToResults_empty_is_noop [of live_client "[frame1, frame2]"]
  note rst = skipToResults_empty_is_noop [of ?c "[]"]
  have a: "skipToResults live_client = live_client" using noop q by blast
  have b: "skipToResults ?c = ?c" using noop q live_client_live by blast
  have c: "messageQueueRef (resetReplay ?c) = tl (events ?c)" using rst h e by blast
  show ?thesis using q live_client_live h e a b c by blast
qed

text \<open>
  The claim as stated fails for \<open>resetReplay()\<close>: with an empty queue after a completed
  replay, and likewise in LIVE mode, it changes \<open>events\<close>, the queue and the status.
\<close>

theorem resetReplay_counterexample:
  "isShareRoute (runTimers (handleMessages [frame1, frame2] share_client))
   \<and> messageQueueRef (runTimers (handleMessages [frame1, frame2] share_client)) = []
   \<and> replayStatus (runTimers (handleMessages [frame1, frame2] share_client)) = COMPLETED
   \<and> events (runTimers (handleMessages [frame1, frame2] share_client)) = [frame1, frame2]
   \<and> events (resetReplay (runTimers (handleMessages [frame1, frame2] share_client)))
       = [frame1]
   \<and> messageQueueRef (resetReplay (runTimers (handleMessages [frame1, frame2] share_client)))
       = [frame2]
   \<and> replayStatus (resetReplay (runTimers (handleMessages [frame1, frame2] share_client)))
       = IN_PROGRESS
   \<and> \<not> isShareRoute (handleMessages [frame1, frame2] live_client)
   \<and> events (handleMessages [frame1, frame2] live_client) = [frame1, frame2]
   \<and> events (resetReplay (handleMessages [frame1, frame2] live_client)) = [frame1]
   \<and> messageQueueRef (resetReplay (handleMessages [frame1, frame2] live_client)) = [frame2]"
  by code_simp

section \<open>Error payloads\<close>

text \<open>
  Claim C9. For every error payload that carries a string \<open>message\<close>: when the message
  is "websocket error" or "timeout", \<open>updateStatusWhenErrorMessagePresent\<close> reports
  nothing; for any other message it reports one chat error with that message and the
  source "websocket", whose metadata is the payload's \<open>data\<close> when that is an object
  (empty otherwise) and whose \<open>msgId\<close> is \<open>data.msg_id\<close> when that is a string
  (absent otherwise).
\<close>

theorem error_payload_classification:
  assumes "map_of d ''message'' = Some (JStr m)"
  shows "(m = ''websocket error'' \<or> m = ''timeout'' \<longrightarrow>
            updateStatusWhenErrorMessagePresent (JObj d) = None
            \<and> chatErrors (reportError (JObj d) s) = chatErrors s)
       \<and> (m \<noteq> ''websocket error'' \<and> m \<noteq> ''timeout'' \<longrightarrow>
            (\<exists>e. updateStatusWhenErrorMessagePresent (JObj d) = Some e
               \<and> chatErrors (reportError (JObj d) s) = chatErrors s @ [e]
               \<and> ce_message e = m \<and> ce_source e = ''websocket''
               \<and> ce_metadata e = (case map_of d ''data'' of Some (JObj dd) \<Rightarrow> dd | _ \<Rightarrow> [])
               \<and> ce_msgId e =
                   (case map_of d ''data'' of
                      Some (JObj dd) \<Rightarrow>
                        (case map_of dd ''msg_id'' of Some (JStr i) \<Rightarrow> Some i | _ \<Rightarrow> None)
                    | _ \<Rightarrow> None)))"
proof -
  have msg: "has_key ''message'' d" "get_prop d ''message'' = JStr m"
    using assms by (simp_all add: has_key_def get_prop_def)
  show ?thesis
  proof (intro conjI impI)
    assume "m = ''websocket error'' \<or> m = ''timeout''"
    then show "updateStatusWhenErrorMessagePresent (JObj d) = None"
      using msg by (auto simp: updateStatusWhenErrorMessagePresent_def)
    then show "chatErrors (reportError (JObj d) s) = chatErrors s"
      by (simp add: reportError_def)
  next
    assume ne: "m \<noteq> ''websocket error'' \<and> m \<noteq> ''timeout''"
    have "\<exists>e. updateStatusWhenErrorMessagePresent (JObj d) = Some e"
      using msg ne by (simp add: updateStatusWhenErrorMessagePresent_def Let_def)
    then obtain e where some: "updateStatusWhenErrorMessagePresent (JObj d) = Some e" ..
    have m1: "ce_message e = m" "ce_source e = ''websocket''"
      using some msg ne by (auto simp: updateStatusWhenErrorMessagePresent_def Let_def)
    have m2: "ce_metadata e = (case map_of d ''data'' of Some (JObj dd) \<Rightarrow> dd | _ \<Rightarrow> [])"
      using some msg ne
      by (auto simp: updateStatusWhenErrorMessagePresent_def Let_def has_key_def get_prop_def
               split: option.splits jsval.splits)
    have m3: "ce_msgId e =
                   (case map_of d ''data'' of
                      Some (JObj dd) \<Rightarrow>
                        (case map_of dd ''msg_id'' of Some (JStr i) \<Rightarrow> Some i | _ \<Rightarrow> None)
                    | _ \<Rightarrow> None)"
      using some msg ne
      by (auto simp: updateStatusWhenErrorMessagePresent_def Let_def has_key_def get_prop_def
               split: option.splits jsval.splits)
    have m4: "chatErrors (reportError (JObj d) s) = chatErrors s @ [e]"
      by (simp add: reportError_def some)
    from some m1 m2 m3 m4
    show "\<exists>e. updateStatusWhenErrorMessagePresent (JObj d) = Some e
               \<and> chatErrors (reportError (JObj d) s) = chatErrors s @ [e]
               \<and> ce_message e = m \<and> ce_source e = ''websocket''
               \<and> ce_metadata e = (case map_of d ''data'' of Some (JObj dd) \<Rightarrow> dd | _ \<Rightarrow> [])
               \<and> ce_msgId e =
                   (case map_of d ''data'' of
                      Some (JObj dd) \<Rightarrow>
                        (case map_of dd ''msg_id'' of Some (JStr i) \<Rightarrow> Some i | _ \<Rightarrow> None)
                    | _ \<Rightarrow> None)"
      by blast
  qed
qed

theorem error_payload_classification_witness:
  "map_of [(''message'', JStr ''Conversation not found''),
           (''data'', JObj [(''msg_id'', JStr ''m1'')])] ''message''
     = Some (JStr ''Conversation not found'')
   \<and> updateStatusWhenErrorMessagePresent
        (JObj [(''message'', JStr ''Conversation not found''),
               (''data'', JObj [(''msg_id'', JStr ''m1'')])])
     = Some \<lparr> ce_message = ''Conversation not found'', ce_source = ''websocket'',
              ce_metadata = [(''msg_id'', JStr ''m1'')], ce_msgId = Some ''m1'' \<rparr>
   \<and> map_of [(''message'', JStr ''timeout'')] ''message'' = Some (JStr ''timeout'')
   \<and> updateStatusWhenErrorMessagePresent (JObj [(''message'', JStr ''timeout'')]) = None"
  using error_payload_classification
          [of "[(''message'', JStr ''Conversation not found''),
                (''data'', JObj [(''msg_id'', JStr ''m1'')])]" "''Conversation not found''"
              live_client]
        error_payload_classification [of "[(''message'', JStr ''timeout'')]" "''timeout''" live_client]
  by auto

section \<open>Disconnecting\<close>

text \<open>
  \<open>disconnect()\<close> leaves the event log, the replay queue, the replay status, the cursor
  and the timers as they were; when a socket is held it makes the five \<^verbatim>\<open>off\<close> calls and
  closes the socket, clears the reference and sets the status; a second call changes
  nothing.
\<close>

lemma disconnect_frame:
  "events (disconnect r s) = events s
   \<and> messageQueueRef (disconnect r s) = messageQueueRef s
   \<and> replayStatus (disconnect r s) = replayStatus s
   \<and> lastEventRef (disconnect r s) = lastEventRef s
   \<and> replayTimers (disconnect r s) = replayTimers s
   \<and> assistantMessages (disconnect r s) = assistantMessages s
   \<and> (sioRef s \<noteq> None \<longrightarrow>
        status (disconnect r s) = DISCONNECTED \<and> sioRef (disconnect r s) = None
        \<and> socketCalls (disconnect r s) =
            socketCalls s @
            [SockOff ''connect'' (HandleConnect r), SockOff ''oh_event'' (HandleMessage r),
             SockOff ''connect_error'' (HandleError r),
             SockOff ''connect_failed'' (HandleError r),
             SockOff ''disconnect'' (HandleDisconnect r), SockDisconnect])
   \<and> (sioRef s = None \<longrightarrow> disconnect r s = s)
   \<and> disconnect r' (disconnect r s) = disconnect r s"
  by (cases "sioRef s") (auto simp: disconnect_def detach_calls_def render_handlers_def)

text \<open>Called by the render that registered the handlers, the calls remove all five.\<close>

lemma detach_same_render:
  "listeners sio = render_handlers r \<Longrightarrow>
   listeners (foldl sock_off sio (render_handlers r)) = []"
  by (simp add: render_handlers_def sock_off_def)

text \<open>Called by any other render, they remove none.\<close>

lemma detach_other_render:
  "r' \<noteq> r \<Longrightarrow> listeners sio = render_handlers r \<Longrightarrow>
   listeners (foldl sock_off sio (render_handlers r')) = render_handlers r"
  by (simp add: render_handlers_def sock_off_def)

text \<open>
  Claim C10. \<open>disconnect()\<close> leaves the event log, the replay queue, the replay status and
  the cursor unchanged; it is to detach the listeners, close the transport and set the
  status to DISCONNECTED, and a second call is a no-op. The code makes the five \<^verbatim>\<open>off\<close>
  calls, but with the handler functions of the render that built the facade value, while
  the listeners on the socket are the functions of the render that ran the effect. Once
  the provider has rendered again (here: the \<open>connect\<close> signal has changed the status)
  these differ, no \<^verbatim>\<open>off\<close> call matches, and the closed socket keeps all five listeners.
  The rest of the claim holds at this input as everywhere.
\<close>

theorem disconnect_leaves_listeners:
  "status live_client = CONNECTED
   \<and> map_option listeners (sioRef live_client)
       = Some [(''connect'', HandleConnect 0), (''oh_event'', HandleMessage 0),
               (''connect_error'', HandleError 0), (''connect_failed'', HandleError 0),
               (''disconnect'', HandleDisconnect 0)]
   \<and> socketCalls (disconnect 1 live_client)
       = socketCalls live_client @
         [SockOff ''connect'' (HandleConnect 1), SockOff ''oh_event'' (HandleMessage 1),
          SockOff ''connect_error'' (HandleError 1), SockOff ''connect_failed'' (HandleError 1),
          SockOff ''disconnect'' (HandleDisconnect 1), SockDisconnect]
   \<and> map listeners (closedSockets (disconnect 1 live_client))
       = [[(''connect'', HandleConnect 0), (''oh_event'', HandleMessage 0),
           (''connect_error'', HandleError 0), (''connect_failed'', HandleError 0),
           (''disconnect'', HandleDisconnect 0)]]
   \<and> status (disconnect 1 live_client) = DISCONNECTED
   \<and> sioRef (disconnect 1 live_client) = None
   \<and> events (disconnect 1 (handleMessages [frame1, frame2] live_client)) = [frame1, frame2]
   \<and> disconnect 1 (disconnect 1 live_client) = disconnect 1 live_client"
  by code_simp

section \<open>Transport signals\<close>

lemma reportError_fields:
  "status (reportError d s) = status s" "sioRef (reportError d s) = sioRef s"
  "lastEventRef (reportError d s) = lastEventRef s"
  "isShareRoute (reportError d s) = isShareRoute s"
  "events (reportError d s) = events s"
  by (simp_all add: reportError_def split: option.splits)

lemma handleError_fields:
  "status (handleError d s) = DISCONNECTED" "sioRef (handleError d s) = sioRef s"
  "lastEventRef (handleError d s) = lastEventRef s"
  by (simp_all add: handleError_def Let_def reportError_fields)

lemma handleDisconnect_fields:
  "status (handleDisconnect d s) = DISCONNECTED"
  "lastEventRef (handleDisconnect d s) = lastEventRef s"
  "sioRef (handleDisconnect d s) =
     map_option (\<lambda>sio. sio\<lparr>latest_event_id := lastEventId s\<rparr>) (sioRef s)"
  by (simp_all add: handleDisconnect_def Let_def reportError_fields lastEventId_def
               split: option.splits)

text \<open>
  Claim C5. On a transport \<open>error\<close> signal as on a \<open>disconnect\<close> signal, the handler is to
  set the status to DISCONNECTED and to capture the current cursor as the socket's
  \<open>latest_event_id\<close> parameter. \<open>handleDisconnect\<close> does both; \<open>handleError\<close> sets the
  status and never writes the parameter (\<open>handleError_fields\<close>). On the share route the
  cursor moves while the transport is down, because the replay timers keep delivering:
  after a \<open>disconnect\<close> signal with cursor 1 and one more timer, the cursor is 2, and an
  \<open>error\<close> signal for a failed reconnection leaves the parameter at 1, where the
  \<open>disconnect\<close> handler would have written 2.
\<close>

theorem error_handler_keeps_stale_cursor:
  "lastEventId replay_running = JNum 1
   \<and> map_option latest_event_id (sioRef (handleDisconnect (JStr ''transport close'') replay_running))
       = Some (JNum 1)
   \<and> lastEventId replay_dropped = JNum 2
   \<and> map_option latest_event_id (sioRef replay_dropped) = Some (JNum 1)
   \<and> status (handleError socket_error replay_dropped) = DISCONNECTED
   \<and> lastEventId (handleError socket_error replay_dropped) = JNum 2
   \<and> map_option latest_event_id (sioRef (handleError socket_error replay_dropped))
       = Some (JNum 1)
   \<and> map_option latest_event_id (sioRef (handleDisconnect socket_error replay_dropped))
       = Some (JNum 2)"
  by code_simp

section \<open>Sending\<close>

text \<open>
  Claim C8, as amended. For every event, \<open>send(event)\<close> while no socket is held
  (\<open>sioRef\<close> is null: before the first effect, or after \<open>disconnect()\<close>) only logs the
  error "WebSocket is not connected.": nothing is emitted on a socket and the rest of
  the state is unchanged.
\<close>

theorem send_without_socket:
  assumes "sioRef s = None"
  shows "send event s = s\<lparr>loggedErrors := loggedErrors s @ [''WebSocket is not connected.'']\<rparr>
       \<and> socketCalls (send event s) = socketCalls s
       \<and> events (send event s) = events s
       \<and> status (send event s) = status s"
  using assms by (simp add: send_def)

theorem send_without_socket_witness:
  "sioRef (disconnect 1 live_client) = None
   \<and> socketCalls (send frame2 (disconnect 1 live_client)) = socketCalls (disconnect 1 live_client)
   \<and> loggedErrors (send frame2 (disconnect 1 live_client)) = [''WebSocket is not connected.'']"
proof -
  have c: "sioRef (disconnect 1 live_client) = None"
    by (simp add: disconnect_def split: option.splits)
  have l: "loggedErrors (disconnect 1 live_client) = []"
    by (simp add: disconnect_def sample_defs)
  have "loggedErrors (send frame2 (disconnect 1 live_client))
          = loggedErrors (disconnect 1 live_client) @ [''WebSocket is not connected.'']"
    using send_without_socket [OF c, of frame2] by simp
  with c l send_without_socket [OF c, of frame2] show ?thesis by simp
qed

text \<open>
  The claim as stated fails when "disconnected" is the status: right after mounting, and
  after a transport \<open>disconnect\<close> signal, the status is DISCONNECTED while a socket is
  held, and \<open>send\<close> emits the event on it without logging.
\<close>

theorem send_counterexample:
  "status (mounted False) = DISCONNECTED
   \<and> socketCalls (send frame2 (mounted False))
       = socketCalls (mounted False) @ [SockEmit ''oh_user_action'' frame2]
   \<and> loggedErrors (send frame2 (mounted False)) = loggedErrors (mounted False)
   \<and> status (handleDisconnect JUndefined live_client) = DISCONNECTED
   \<and> socketCalls (send frame2 (handleDisconnect JUndefined live_client))
       = socketCalls (handleDisconnect JUndefined live_client) @ [SockEmit ''oh_user_action'' frame2]
   \<and> loggedErrors (send frame2 (handleDisconnect JUndefined live_client)) = []"
  by code_simp

end
